theory Spec2Isabelle
  imports Complex_Main
begin

unbundle bit_operations_syntax

section \<open>SmartPot firmware: display, touch and sensor control core\<close>

text \<open>
  A shallow embedding of \<^verbatim>\<open>Firmware/smart_plant_ui copy 48.py\<close>.  Python integers are
  \<^typ>\<open>int\<close>; an uncaught Python exception is a value \<open>Inl e\<close> of a sum type; object
  attributes are record fields; calls that reach the hardware are recorded in explicit
  logs so that statements about what is sent, and how often, can be made.
\<close>

datatype py_error = NameError | ValueError | ZeroDivisionError

subsection \<open>Colour conversion\<close>

text \<open>
  \<^verbatim>\<open>color565(r, g=0, b=0)\<close> first tries \<^verbatim>\<open>r, g, b = r\<close>.  For an integer this raises
  \<^verbatim>\<open>TypeError\<close>, which is swallowed; for a sequence of three items it rebinds all three
  names; a sequence of any other length raises \<^verbatim>\<open>ValueError\<close>, which is not caught.
  In \<^verbatim>\<open>(r & 0xf8) << 8 | (g & 0xfc) << 3 | b >> 3\<close> the shifts bind tighter than \<^verbatim>\<open>|\<close>.
\<close>

datatype color_arg = IntArg int | SeqArg "int list"

definition pack565 :: "int \<Rightarrow> int \<Rightarrow> int \<Rightarrow> int" where
  "pack565 r g b = push_bit 8 (r AND 0xf8) OR push_bit 3 (g AND 0xfc) OR drop_bit 3 b"

definition color565 :: "color_arg \<Rightarrow> int \<Rightarrow> int \<Rightarrow> py_error + int" where
  "color565 r g b =
     (case r of
        IntArg r0 \<Rightarrow> Inr (pack565 r0 g b)
      | SeqArg [r1, g1, b1] \<Rightarrow> Inr (pack565 r1 g1 b1)
      | SeqArg _ \<Rightarrow> Inl ValueError)"


subsection \<open>Time\<close>

text \<open>
  \<^verbatim>\<open>time.ticks_ms()\<close> is an input of every operation that reads the clock.
  \<^verbatim>\<open>time.ticks_diff\<close> is MicroPython's signed difference of two tick values on the
  ring of period 2^30.
\<close>

definition ticks_diff :: "int \<Rightarrow> int \<Rightarrow> int" where
  "ticks_diff t1 t0 = (t1 - t0 + 2 ^ 29) mod 2 ^ 30 - 2 ^ 29"

subsection \<open>The display object\<close>

text \<open>
  The dictionary \<^verbatim>\<open>sensor_data\<close> and the dictionary \<^verbatim>\<open>last_displayed_values\<close> have a
  fixed set of keys and become records (the keys of the second one carry the prefix
  \<open>shown_\<close>).  The DHT11 driver delivers integers and the start value of the temperature
  is 22.5, so temperature and humidity are exact rationals.  The float
  \<^verbatim>\<open>light_voltage\<close> is only printed and is left out.
\<close>

record sensor_values =
  temperature :: rat
  humidity :: rat
  light :: int
  light_raw :: int
  water_level :: int
  plant_health :: int

record displayed_values =
  shown_light :: int
  shown_temperature :: rat
  shown_humidity :: rat
  shown_plant_health :: int

record display =
  width :: int
  height :: int
  current_screen :: int
  last_update :: int
  last_touch_time :: int
  manual_mode :: bool
  last_drawn_screen :: int
  screen_needs_redraw :: bool
  last_light_value :: int
  data_needs_update :: bool
  last_motion_time :: int
  motion_timeout :: int
  motion_timeout_seconds :: int
  last_motion_check :: int
  audio_played :: bool
  reward_played :: bool
  last_displayed_values :: displayed_values
  sensor_data :: sensor_values

text \<open>\<^verbatim>\<open>SmartPlantDisplay.__init__\<close>; the argument is the value of \<^verbatim>\<open>time.ticks_ms()\<close> read there.\<close>

definition display_init :: "int \<Rightarrow> display" where
  "display_init current_time =
     \<lparr> width = 320, height = 240, current_screen = 0, last_update = 0, last_touch_time = 0,
       manual_mode = False, last_drawn_screen = - 1, screen_needs_redraw = True,
       last_light_value = 0, data_needs_update = False,
       last_motion_time = current_time, motion_timeout = 30000, motion_timeout_seconds = 30,
       last_motion_check = 0, audio_played = False, reward_played = False,
       last_displayed_values =
         \<lparr> shown_light = 0, shown_temperature = 0, shown_humidity = 0, shown_plant_health = 0 \<rparr>,
       sensor_data =
         \<lparr> temperature = 45 / 2, humidity = 65, light = 750, light_raw = 32767,
           water_level = 80, plant_health = 85 \<rparr> \<rparr>"

subsection \<open>Touch handling and the manual-mode timeout\<close>

text \<open>The preset loop of \<^verbatim>\<open>handle_touch\<close>: the first button that contains \<open>x\<close> wins.\<close>

fun apply_preset :: "int \<Rightarrow> (nat \<times> int) list \<Rightarrow> display \<Rightarrow> display" where
  "apply_preset x [] s = s"
| "apply_preset x ((i, preset) # rest) s =
     (let button_x = 20 + int i * 70 in
      if button_x \<le> x \<and> x \<le> button_x + 60
      then s\<lparr>motion_timeout_seconds := preset, motion_timeout := preset * 1000,
             screen_needs_redraw := True\<rparr>
      else apply_preset x rest s)"

definition touch_main_screen :: "display \<Rightarrow> int \<Rightarrow> int \<Rightarrow> display" where
  "touch_main_screen s x y =
     (if 20 \<le> y \<and> y \<le> 100 then
        (if 10 \<le> x \<and> x \<le> 100 then s\<lparr>current_screen := 1\<rparr>
         else if 110 \<le> x \<and> x \<le> 200 then s\<lparr>current_screen := 1\<rparr>
         else if 210 \<le> x \<and> x \<le> 300 then s\<lparr>current_screen := 1\<rparr>
         else s)
      else if 110 \<le> y \<and> y \<le> 190 then
        (if 10 \<le> x \<and> x \<le> 100 then s\<lparr>current_screen := 1\<rparr>
         else if 110 \<le> x \<and> x \<le> 300 then s\<lparr>current_screen := 1\<rparr>
         else s)
      else s)"

definition touch_settings_screen :: "display \<Rightarrow> int \<Rightarrow> int \<Rightarrow> display" where
  "touch_settings_screen s x y =
     (let settings_y = 50; fine_y = settings_y + 50; preset_y = fine_y + 40 in
      if settings_y \<le> y \<and> y \<le> settings_y + 40 then
        (if 20 \<le> x \<and> x \<le> 80 then
           (let secs = max 5 (motion_timeout_seconds s - 10) in
            s\<lparr>motion_timeout_seconds := secs, motion_timeout := secs * 1000,
              screen_needs_redraw := True\<rparr>)
         else if 240 \<le> x \<and> x \<le> 300 then
           (let secs = min 300 (motion_timeout_seconds s + 10) in
            s\<lparr>motion_timeout_seconds := secs, motion_timeout := secs * 1000,
              screen_needs_redraw := True\<rparr>)
         else s)
      else if fine_y \<le> y \<and> y \<le> fine_y + 30 then
        (if 50 \<le> x \<and> x \<le> 100 then
           (let secs = max 5 (motion_timeout_seconds s - 5) in
            s\<lparr>motion_timeout_seconds := secs, motion_timeout := secs * 1000,
              screen_needs_redraw := True\<rparr>)
         else if 220 \<le> x \<and> x \<le> 270 then
           (let secs = min 300 (motion_timeout_seconds s + 5) in
            s\<lparr>motion_timeout_seconds := secs, motion_timeout := secs * 1000,
              screen_needs_redraw := True\<rparr>)
         else s)
      else if preset_y \<le> y \<and> y \<le> preset_y + 25 then
        apply_preset x (enumerate 0 [15, 30, 60, 120]) s
      else s)"

text \<open>\<^verbatim>\<open>handle_touch(x, y)\<close>; \<open>now\<close> is the value of \<^verbatim>\<open>time.ticks_ms()\<close> read in it.\<close>

definition handle_touch :: "display \<Rightarrow> int \<Rightarrow> int \<Rightarrow> int \<Rightarrow> display" where
  "handle_touch s now x y =
     (let old_screen = current_screen s;
          s1 = s\<lparr>manual_mode := True, last_touch_time := now\<rparr>;
          nav_y = height s1 - 40;
          s2 = (if y \<ge> nav_y then
                  (let button_width = width s1 div 2 in
                   if x < button_width then s1\<lparr>current_screen := 0\<rparr>
                   else s1\<lparr>current_screen := 2\<rparr>)
                else if current_screen s1 = 0 then touch_main_screen s1 x y
                else if current_screen s1 = 1 then s1\<lparr>current_screen := 0\<rparr>
                else if current_screen s1 = 2 then touch_settings_screen s1 x y
                else s1)
      in if old_screen \<noteq> current_screen s2 then s2\<lparr>screen_needs_redraw := True\<rparr> else s2)"

text \<open>\<^verbatim>\<open>check_auto_mode_timeout()\<close> at clock value \<open>current_time\<close>.\<close>

definition check_auto_mode_timeout :: "display \<Rightarrow> int \<Rightarrow> display" where
  "check_auto_mode_timeout s current_time =
     (if manual_mode s then
        (if ticks_diff current_time (last_touch_time s) > 60000
         then s\<lparr>manual_mode := False\<rparr> else s)
      else s)"

text \<open>
  Successive calls of \<^const>\<open>check_auto_mode_timeout\<close> at the given clock values, as the
  main loop issues them between touches; the result lists the state after each call.
\<close>

fun auto_mode_checks :: "display \<Rightarrow> int list \<Rightarrow> display list" where
  "auto_mode_checks s [] = []"
| "auto_mode_checks s (t # ts) =
     (let s' = check_auto_mode_timeout s t in s' # auto_mode_checks s' ts)"

text \<open>The touch targets of each screen as laid out in \<^verbatim>\<open>handle_touch\<close>: (x0, x1, y0, y1), bounds inclusive.\<close>

definition in_rect :: "int \<times> int \<times> int \<times> int \<Rightarrow> int \<Rightarrow> int \<Rightarrow> bool" where
  "in_rect r x y = (case r of (x0, x1, y0, y1) \<Rightarrow> x0 \<le> x \<and> x \<le> x1 \<and> y0 \<le> y \<and> y \<le> y1)"

definition main_widgets :: "(int \<times> int \<times> int \<times> int) list" where
  "main_widgets =
     [(10, 100, 20, 100), (110, 200, 20, 100), (210, 300, 20, 100),
      (10, 100, 110, 190), (110, 300, 110, 190)]"

definition settings_buttons :: "(int \<times> int \<times> int \<times> int) list" where
  "settings_buttons =
     [(20, 80, 50, 90), (240, 300, 50, 90), (50, 100, 100, 130), (220, 270, 100, 130),
      (20, 80, 140, 165), (90, 150, 140, 165), (160, 220, 140, 165), (230, 290, 140, 165)]"

text \<open>
  A point lies in a hit region of the current screen when it is in the bottom navigation
  bar or in one of the widget or button rectangles of that screen.  The dashboard has
  five widget rectangles, the settings screen eight button rectangles, and the detail
  screen none.
\<close>

definition in_hit_region :: "display \<Rightarrow> int \<Rightarrow> int \<Rightarrow> bool" where
  "in_hit_region s x y =
     (y \<ge> height s - 40
      \<or> (current_screen s = 0 \<and> list_ex (\<lambda>r. in_rect r x y) main_widgets)
      \<or> (current_screen s = 2 \<and> list_ex (\<lambda>r. in_rect r x y) settings_buttons))"

definition timeout_consistent :: "display \<Rightarrow> bool" where
  "timeout_consistent s = (motion_timeout s = motion_timeout_seconds s * 1000)"

subsection \<open>Motion sensor and audio cues\<close>

text \<open>
  A call of \<^verbatim>\<open>play_reward_sound\<close> or \<^verbatim>\<open>play_punishment_sound\<close> is recorded as a cue;
  both catch their own exceptions and return, so the caller continues after them.
  \<^verbatim>\<open>read_motion_sensor\<close> gets the clock value and the level of the motion pin and returns
  its result, the cues it invoked and the new state.
\<close>

datatype cue = Reward | Punishment

definition read_motion_sensor :: "display \<Rightarrow> int \<Rightarrow> int \<Rightarrow> bool \<times> cue list \<times> display" where
  "read_motion_sensor s current_time motion_state =
     (if motion_state = 1 then
        (let s1 = s\<lparr>last_motion_time := current_time, audio_played := False\<rparr> in
         if \<not> reward_played s1 then (True, [Reward], s1\<lparr>reward_played := True\<rparr>)
         else (True, [], s1))
      else
        (let s1 = s\<lparr>reward_played := False\<rparr> in
         if ticks_diff current_time (last_motion_check s1) > 5000 then
           (let s2 = s1\<lparr>last_motion_check := current_time\<rparr> in
            if ticks_diff current_time (last_motion_time s2) > motion_timeout s2 then
              (if \<not> audio_played s2 then (False, [Punishment], s2\<lparr>audio_played := True\<rparr>)
               else (False, [], s2))
            else (False, [], s2))
         else (False, [], s1)))"


subsection \<open>Sensor update and plant health\<close>

text \<open>
  \<^verbatim>\<open>update_sensor_data\<close> gets what the three sensor readers return: the light value with
  its raw ADC count, the DHT11 pair (temperature, humidity) or nothing when the read
  failed, and the clock value and pin level for the motion sensor.  When the DHT11
  read failed the function reaches \<^verbatim>\<open>random.uniform\<close>; the module never imports
  \<^verbatim>\<open>random\<close>, so this raises \<^verbatim>\<open>NameError\<close>.
\<close>

text \<open>
  The blocks of \<^verbatim>\<open>update_sensor_data\<close>, in source order: a reading replaces the stored
  temperature when it differs from it by more than 0.1, and the stored humidity when
  it differs by more than 1; the partial-redraw flag is raised when a stored value has
  drifted from the displayed one; the health score starts at 100 and loses points
  condition by condition.
\<close>

definition store_temperature :: "sensor_values \<Rightarrow> int \<Rightarrow> sensor_values" where
  "store_temperature d real_temp =
     (if \<bar>of_int real_temp - temperature d\<bar> > 1 / 10
      then d\<lparr>temperature := of_int real_temp\<rparr> else d)"

definition store_humidity :: "sensor_values \<Rightarrow> int \<Rightarrow> sensor_values" where
  "store_humidity d real_humidity =
     (if \<bar>of_int real_humidity - humidity d\<bar> > 1
      then d\<lparr>humidity := of_int real_humidity\<rparr> else d)"

definition values_drifted :: "sensor_values \<Rightarrow> displayed_values \<Rightarrow> bool" where
  "values_drifted d shown =
     (\<bar>temperature d - shown_temperature shown\<bar> > 1 / 10
      \<or> \<bar>humidity d - shown_humidity shown\<bar> > 1)"

definition compute_health :: "rat \<Rightarrow> int \<Rightarrow> rat \<Rightarrow> int" where
  "compute_health temp light_value hum =
     (let health0 = 100;
          health1 = (if temp < 18 \<or> temp > 28 then health0 - 15 else health0);
          health2 = (if light_value < 300 then health1 - 20 else health1);
          health3 = (if hum < 40 \<or> hum > 80 then health2 - 15 else health2)
      in max 0 (min 100 health3))"

definition update_sensor_data ::
  "display \<Rightarrow> int \<times> int \<Rightarrow> (int \<times> int) option \<Rightarrow> int \<Rightarrow> int \<Rightarrow> py_error + cue list \<times> display"
where
  "update_sensor_data s light_reading dht current_time motion_state =
     (case light_reading of (light_value, light_raw_value) \<Rightarrow>
      case read_motion_sensor s current_time motion_state of (motion_detected, cues, s1) \<Rightarrow>
      let s2 = (if \<bar>light_value - last_light_value s1\<bar> > 5
                then s1\<lparr>data_needs_update := True\<rparr> else s1)
      in case dht of
           None \<Rightarrow> Inl NameError
         | Some (real_temp, real_humidity) \<Rightarrow>
             let d1 = store_temperature (sensor_data s2) real_temp;
                 d2 = store_humidity d1 real_humidity;
                 s3 = (if values_drifted d2 (last_displayed_values s2)
                       then s2\<lparr>data_needs_update := True\<rparr> else s2);
                 d3 = d2\<lparr>light := light_value, light_raw := light_raw_value\<rparr>;
                 s4 = s3\<lparr>last_light_value := light_value\<rparr>;
                 health = compute_health (temperature d3) light_value (humidity d3)
             in Inr (cues, s4\<lparr>sensor_data := d3\<lparr>plant_health := health\<rparr>\<rparr>))"

text \<open>The scoring rule in the words of the specification.\<close>

definition health_score :: "rat \<Rightarrow> int \<Rightarrow> rat \<Rightarrow> int" where
  "health_score temp light_value hum =
     max 0 (min 100
       (100 - (if temp < 18 \<or> temp > 28 then 15 else 0)
            - (if light_value < 300 then 20 else 0)
            - (if hum < 40 \<or> hum > 80 then 15 else 0)))"

subsection \<open>Touch controller\<close>

text \<open>
  The touch controller talks to the XPT2046 over its own SPI bus.  The bus is an explicit
  value: the level of the interrupt pin, the bytes each future \<^verbatim>\<open>spi.read\<close> will
  return (indexed by the number of reads made so far), and the log of chip-select
  changes, writes and reads made so far.
\<close>

datatype bus_op = CsOff | CsOn | SpiWrite "int list" | SpiRead nat

record touch_bus =
  irq_level :: int
  spi_replies :: "nat \<Rightarrow> int list"
  spi_reads :: nat
  traffic :: "bus_op list"

record touch_controller =
  cal_x_min :: int
  cal_x_max :: int
  cal_y_min :: int
  cal_y_max :: int

definition TOUCH_CMD_X :: int where "TOUCH_CMD_X = 0x90"
definition TOUCH_CMD_Y :: int where "TOUCH_CMD_Y = 0xD0"

text \<open>The calibration values set by \<^verbatim>\<open>TouchController.__init__\<close>.\<close>

definition touch_controller_init :: touch_controller where
  "touch_controller_init =
     \<lparr> cal_x_min = 200, cal_x_max = 3800, cal_y_min = 200, cal_y_max = 3800 \<rparr>"

text \<open>The value \<^verbatim>\<open>read_touch_raw\<close> computes from the bytes it has read.\<close>

definition reply_value :: "int list \<Rightarrow> int" where
  "reply_value result =
     (if length result = 2
      then drop_bit 3 (push_bit 8 (result ! 0) OR result ! 1) AND 0x0FFF
      else 0)"

definition read_touch_raw :: "touch_bus \<Rightarrow> int \<Rightarrow> int \<times> touch_bus" where
  "read_touch_raw b cmd =
     (let result = spi_replies b (spi_reads b) in
      (reply_value result,
       b\<lparr>spi_reads := Suc (spi_reads b),
         traffic := traffic b @ [CsOff, SpiWrite [cmd], SpiRead 2, CsOn]\<rparr>))"

text \<open>
  The sampling loop of \<^verbatim>\<open>get_touch\<close>; the first argument is the number of iterations
  still to run, the triple is (x_sum, y_sum, valid_readings).
\<close>

fun sample_loop :: "nat \<Rightarrow> touch_bus \<Rightarrow> int \<times> int \<times> int \<Rightarrow> (int \<times> int \<times> int) \<times> touch_bus" where
  "sample_loop 0 b acc = (acc, b)"
| "sample_loop (Suc n) b (x_sum, y_sum, valid_readings) =
     (case read_touch_raw b TOUCH_CMD_X of (x_raw, b1) \<Rightarrow>
      case read_touch_raw b1 TOUCH_CMD_Y of (y_raw, b2) \<Rightarrow>
        sample_loop n b2
          (if x_raw > 100 \<and> y_raw > 100 \<and> x_raw < 4000 \<and> y_raw < 4000
           then (x_sum + x_raw, y_sum + y_raw, valid_readings + 1)
           else (x_sum, y_sum, valid_readings)))"

text \<open>
  \<^verbatim>\<open>int(a / b)\<close> for integers \<open>a\<close> and \<open>b \<noteq> 0\<close>: the quotient truncated towards zero.
  The numerators here are below 2^23 in absolute value, where the float quotient of two
  integers truncates to the same integer as the exact quotient.
\<close>

definition int_of_quotient :: "int \<Rightarrow> int \<Rightarrow> int" where
  "int_of_quotient a b = sgn a * sgn b * (\<bar>a\<bar> div \<bar>b\<bar>)"

definition scale :: "int \<Rightarrow> int \<Rightarrow> int \<Rightarrow> int \<Rightarrow> int" where
  "scale raw cal_min cal_max extent =
     int_of_quotient ((raw - cal_min) * extent) (cal_max - cal_min)"

text \<open>The end of \<^verbatim>\<open>get_touch\<close>: the averaged raw pair becomes a clamped screen point.\<close>

definition to_screen :: "touch_controller \<Rightarrow> int \<Rightarrow> int \<Rightarrow> py_error + int \<times> int" where
  "to_screen tc x_avg y_avg =
     (if cal_x_max tc - cal_x_min tc = 0 then Inl ZeroDivisionError
      else if cal_y_max tc - cal_y_min tc = 0 then Inl ZeroDivisionError
      else
        (let x = scale x_avg (cal_x_min tc) (cal_x_max tc) 320;
             y = scale y_avg (cal_y_min tc) (cal_y_max tc) 240;
             x = max 0 (min 319 x);
             y = max 0 (min 239 y)
         in Inr (x, y)))"

definition get_touch ::
  "touch_controller \<Rightarrow> touch_bus \<Rightarrow> py_error + (int \<times> int) option \<times> touch_bus"
where
  "get_touch tc b =
     (let irq_state = irq_level b in
      if irq_state = 1 then Inr (None, b)
      else
        (case sample_loop 3 b (0, 0, 0) of ((x_sum, y_sum, valid_readings), b') \<Rightarrow>
           if valid_readings = 0 then Inr (None, b')
           else
             (let x_avg = x_sum div valid_readings;
                  y_avg = y_sum div valid_readings
              in case to_screen tc x_avg y_avg of
                   Inl e \<Rightarrow> Inl e
                 | Inr p \<Rightarrow> Inr (Some p, b'))))"

text \<open>
  The sampling rule in the words of the specification: three (x, y) pairs are read,
  pairs with a value outside the open band (100, 4000) are dropped, and the survivors
  are averaged per axis with integer division.
\<close>

definition raw_pairs :: "touch_bus \<Rightarrow> (int \<times> int) list" where
  "raw_pairs b =
     map (\<lambda>k. (reply_value (spi_replies b (spi_reads b + 2 * k)),
               reply_value (spi_replies b (spi_reads b + 2 * k + 1)))) [0, 1, 2]"

definition plausible :: "int \<times> int \<Rightarrow> bool" where
  "plausible p = (100 < fst p \<and> fst p < 4000 \<and> 100 < snd p \<and> snd p < 4000)"

definition transaction :: "int \<Rightarrow> bus_op list" where
  "transaction cmd = [CsOff, SpiWrite [cmd], SpiRead 2, CsOn]"

definition after_sampling :: "touch_bus \<Rightarrow> touch_bus" where
  "after_sampling b =
     b\<lparr>spi_reads := spi_reads b + 6,
       traffic := traffic b
         @ concat (replicate 3 (transaction TOUCH_CMD_X @ transaction TOUCH_CMD_Y))\<rparr>"

definition get_touch_spec ::
  "touch_controller \<Rightarrow> touch_bus \<Rightarrow> py_error + (int \<times> int) option \<times> touch_bus"
where
  "get_touch_spec tc b =
     (if irq_level b = 1 then Inr (None, b)
      else
        (let survivors = filter plausible (raw_pairs b) in
         if survivors = [] then Inr (None, after_sampling b)
         else
           (case to_screen tc
                   (sum_list (map fst survivors) div int (length survivors))
                   (sum_list (map snd survivors) div int (length survivors)) of
              Inl e \<Rightarrow> Inl e
            | Inr p \<Rightarrow> Inr (Some p, after_sampling b))))"

subsection \<open>Display window and rectangle fill\<close>

text \<open>
  What the display driver hands to its SPI bus is a list of operations.
  \<^verbatim>\<open>struct.pack(">H", v)\<close> of MicroPython stores the low 16 bits of \<open>v\<close>, high byte first,
  without a range check.
\<close>

datatype tft_op =
  WriteCmd int | WriteCmdData int "int list" | CsLow | DcHigh | SpiData "int list" | CsHigh

definition ILI9341_CASET :: int where "ILI9341_CASET = 0x2A"
definition ILI9341_PASET :: int where "ILI9341_PASET = 0x2B"
definition ILI9341_RAMWR :: int where "ILI9341_RAMWR = 0x2C"

definition pack_H :: "int \<Rightarrow> int list" where
  "pack_H v = [(v mod 65536) div 256, v mod 256]"

definition set_window :: "int \<Rightarrow> int \<Rightarrow> int \<Rightarrow> int \<Rightarrow> tft_op list" where
  "set_window x0 y0 x1 y1 =
     [WriteCmdData ILI9341_CASET (pack_H x0 @ pack_H x1),
      WriteCmdData ILI9341_PASET (pack_H y0 @ pack_H y1),
      WriteCmd ILI9341_RAMWR]"

definition fill_rect :: "display \<Rightarrow> int \<Rightarrow> int \<Rightarrow> int \<Rightarrow> int \<Rightarrow> int \<Rightarrow> tft_op list" where
  "fill_rect s x y w h color =
     (let w = (if x + w > width s then width s - x else w);
          h = (if y + h > height s then height s - y else h);
          pixel_data = pack_H color
      in set_window x y (x + w - 1) (y + h - 1)
         @ [CsLow, DcHigh] @ replicate (nat (w * h)) (SpiData pixel_data) @ [CsHigh])"

text \<open>\<^verbatim>\<open>pixel(x, y, color)\<close>, the one-pixel primitive next to \<^const>\<open>fill_rect\<close>.\<close>

definition pixel :: "display \<Rightarrow> int \<Rightarrow> int \<Rightarrow> int \<Rightarrow> tft_op list" where
  "pixel s x y color =
     (if 0 \<le> x \<and> x < width s \<and> 0 \<le> y \<and> y < height s
      then set_window x y x y @ [CsLow, DcHigh, SpiData (pack_H color), CsHigh]
      else [])"

section \<open>Properties\<close>

subsection \<open>Colour conversion\<close>

lemma and_0xf8: "(r::int) AND 0xf8 = push_bit 3 (take_bit 5 (drop_bit 3 r))"
proof -
  have e: "(0xf8::int) = push_bit 3 (mask 5)"
    by (simp add: mask_eq_exp_minus_1 push_bit_eq_mult)
  show ?thesis
    by (subst e, rule bit_eqI) (auto simp add: bit_simps)
qed

lemma and_0xfc: "(g::int) AND 0xfc = push_bit 2 (take_bit 6 (drop_bit 2 g))"
proof -
  have e: "(0xfc::int) = push_bit 2 (mask 6)"
    by (simp add: mask_eq_exp_minus_1 push_bit_eq_mult)
  have s: "Suc (Suc (n - 2)) = n" if "2 \<le> n" for n :: nat
    using that by simp
  show ?thesis
    by (subst e, rule bit_eqI) (auto simp add: bit_simps s)
qed

text \<open>
  The three fields never overlap, so the bitwise disjunction is a sum: red bits 3..7 land
  in bits 11..15, green bits 2..7 in bits 5..10, and the low field holds five bits.
\<close>

lemma fields_disjoint:
  fixes r g b :: int
  shows "push_bit 8 (r AND 0xf8) OR push_bit 3 (g AND 0xfc) OR take_bit 5 b
       = take_bit 5 (r div 8) * 2048 + take_bit 6 (g div 4) * 32 + take_bit 5 b"
proof -
  let ?R = "push_bit 11 (take_bit 5 (drop_bit 3 r))"
  let ?G = "push_bit 5 (take_bit 6 (drop_bit 2 g))"
  let ?B = "take_bit 5 b"
  have gb: "?G + ?B = ?G OR ?B"
    by (rule disjunctive_add) (auto simp add: bit_simps)
  have rgb: "?R + (?G OR ?B) = ?R OR (?G OR ?B)"
    by (rule disjunctive_add) (auto simp add: bit_simps)
  have "push_bit 8 (r AND 0xf8) OR push_bit 3 (g AND 0xfc) OR ?B = ?R OR (?G OR ?B)"
    by (simp only: and_0xf8 and_0xfc push_bit_push_bit or.assoc) simp
  also have "\<dots> = ?R + (?G + ?B)"
    using gb rgb by simp
  finally show ?thesis
    by (simp add: push_bit_eq_mult drop_bit_eq_div)
qed

lemma pack565_channels:
  assumes "0 \<le> r" "r \<le> 255" "0 \<le> g" "g \<le> 255" "0 \<le> b" "b \<le> 255"
  shows "pack565 r g b = (r div 8) * 2048 + (g div 4) * 32 + b div 8"
proof -
  have b5: "drop_bit 3 b = take_bit 5 (drop_bit 3 b)"
    using assms by (simp add: take_bit_int_eq_self drop_bit_eq_div)
  have "pack565 r g b
      = push_bit 8 (r AND 0xf8) OR push_bit 3 (g AND 0xfc) OR take_bit 5 (drop_bit 3 b)"
    unfolding pack565_def using b5 by simp
  also have "\<dots> = take_bit 5 (r div 8) * 2048 + take_bit 6 (g div 4) * 32
                  + take_bit 5 (drop_bit 3 b)"
    by (rule fields_disjoint)
  also have "\<dots> = (r div 8) * 2048 + (g div 4) * 32 + b div 8"
    using assms by (simp add: take_bit_int_eq_self drop_bit_eq_div)
  finally show ?thesis .
qed

text \<open>
  Claim C9.  For 8-bit channels \<^const>\<open>color565\<close> keeps the top five bits of red, the top
  six bits of green and the top five bits of blue, packed as red * 2^11 + green * 2^5 +
  blue into a 16-bit value, whether the channels come as three integers or as one
  triple; pure red, green, blue and white give 0xF800, 0x07E0, 0x001F and 0xFFFF.
\<close>

theorem color565_top_bits:
  assumes "0 \<le> r" "r \<le> 255" "0 \<le> g" "g \<le> 255" "0 \<le> b" "b \<le> 255"
  shows "color565 (IntArg r) g b = Inr ((r div 8) * 2048 + (g div 4) * 32 + b div 8)
       \<and> color565 (SeqArg [r, g, b]) 0 0 = color565 (IntArg r) g b
       \<and> 0 \<le> (r div 8) * 2048 + (g div 4) * 32 + b div 8
       \<and> (r div 8) * 2048 + (g div 4) * 32 + b div 8 \<le> 0xFFFF
       \<and> r div 8 \<le> 31 \<and> g div 4 \<le> 63 \<and> b div 8 \<le> 31
       \<and> color565 (IntArg 255) 0 0 = Inr 0xF800
       \<and> color565 (IntArg 0) 255 0 = Inr 0x07E0
       \<and> color565 (IntArg 0) 0 255 = Inr 0x001F
       \<and> color565 (IntArg 255) 255 255 = Inr 0xFFFF"
proof -
  have v: "color565 (IntArg r) g b = Inr ((r div 8) * 2048 + (g div 4) * 32 + b div 8)"
    using pack565_channels [OF assms] by (simp add: color565_def)
  have t: "color565 (SeqArg [r, g, b]) 0 0 = color565 (IntArg r) g b"
    by (simp add: color565_def)
  have red: "color565 (IntArg 255) 0 0 = Inr 0xF800"
    using pack565_channels [of 255 0 0] by (simp add: color565_def)
  have green: "color565 (IntArg 0) 255 0 = Inr 0x07E0"
    using pack565_channels [of 0 255 0] by (simp add: color565_def)
  have blue: "color565 (IntArg 0) 0 255 = Inr 0x001F"
    using pack565_channels [of 0 0 255] by (simp add: color565_def)
  have white: "color565 (IntArg 255) 255 255 = Inr 0xFFFF"
    using pack565_channels [of 255 255 255] by (simp add: color565_def)
  have bounds: "0 \<le> r div 8" "r div 8 \<le> 31" "0 \<le> g div 4" "g div 4 \<le> 63"
    "0 \<le> b div 8" "b div 8 \<le> 31"
    using assms by simp_all
  from v t red green blue white bounds show ?thesis
    by simp
qed

theorem color565_top_bits_witness:
  "color565 (IntArg 200) 100 50 = Inr 52006
   \<and> color565 (SeqArg [200, 100, 50]) 0 0 = Inr 52006"
  using color565_top_bits [of 200 100 50] by simp

subsection \<open>Touch handling\<close>

lemma presets_unfold:
  "apply_preset x (enumerate 0 [15, 30, 60, 120]) s =
     (if 20 \<le> x \<and> x \<le> 80 then
        s\<lparr>motion_timeout_seconds := 15, motion_timeout := 15000, screen_needs_redraw := True\<rparr>
      else if 90 \<le> x \<and> x \<le> 150 then
        s\<lparr>motion_timeout_seconds := 30, motion_timeout := 30000, screen_needs_redraw := True\<rparr>
      else if 160 \<le> x \<and> x \<le> 220 then
        s\<lparr>motion_timeout_seconds := 60, motion_timeout := 60000, screen_needs_redraw := True\<rparr>
      else if 230 \<le> x \<and> x \<le> 290 then
        s\<lparr>motion_timeout_seconds := 120, motion_timeout := 120000, screen_needs_redraw := True\<rparr>
      else s)"
  by (simp add: Let_def)

lemma apply_preset_frame:
  "current_screen (apply_preset x ps s) = current_screen s
   \<and> manual_mode (apply_preset x ps s) = manual_mode s
   \<and> last_touch_time (apply_preset x ps s) = last_touch_time s"
  by (induction x ps s rule: apply_preset.induct) (simp_all add: Let_def)

lemma apply_preset_consistent:
  "timeout_consistent s \<Longrightarrow> timeout_consistent (apply_preset x ps s)"
  by (induction x ps s rule: apply_preset.induct)
    (simp_all add: Let_def timeout_consistent_def)

lemma touch_settings_frame:
  "current_screen (touch_settings_screen s x y) = current_screen s
   \<and> manual_mode (touch_settings_screen s x y) = manual_mode s
   \<and> last_touch_time (touch_settings_screen s x y) = last_touch_time s"
  by (simp add: touch_settings_screen_def Let_def apply_preset_frame
      del: enumerate_simps apply_preset.simps)

lemma touch_settings_consistent:
  "timeout_consistent s \<Longrightarrow> timeout_consistent (touch_settings_screen s x y)"
  using apply_preset_consistent [of s x "enumerate 0 [15, 30, 60, 120]"]
  by (simp add: touch_settings_screen_def Let_def timeout_consistent_def del: enumerate_simps)

lemma touch_main_frame:
  "manual_mode (touch_main_screen s x y) = manual_mode s
   \<and> last_touch_time (touch_main_screen s x y) = last_touch_time s
   \<and> motion_timeout (touch_main_screen s x y) = motion_timeout s
   \<and> motion_timeout_seconds (touch_main_screen s x y) = motion_timeout_seconds s"
  by (simp add: touch_main_screen_def)

lemma handle_touch_enters_manual:
  "manual_mode (handle_touch s now x y) \<and> last_touch_time (handle_touch s now x y) = now"
  by (simp add: handle_touch_def Let_def touch_settings_frame touch_main_frame)

lemma handle_touch_settings:
  assumes "current_screen s = 2" "y < height s - 40"
  shows "handle_touch s now x y =
           touch_settings_screen (s\<lparr>manual_mode := True, last_touch_time := now\<rparr>) x y"
  using assms by (simp add: handle_touch_def Let_def touch_settings_frame)

text \<open>
  Claim C10.  The state built by the constructor satisfies
  motion_timeout = motion_timeout_seconds * 1000, and \<^const>\<open>handle_touch\<close> keeps it:
  every branch that assigns the seconds value assigns the millisecond value with it.
\<close>

theorem handle_touch_consistent:
  "timeout_consistent (display_init t0)
   \<and> (timeout_consistent s \<longrightarrow> timeout_consistent (handle_touch s now x y))"
proof
  show "timeout_consistent (display_init t0)"
    by (simp add: timeout_consistent_def display_init_def)
next
  show "timeout_consistent s \<longrightarrow> timeout_consistent (handle_touch s now x y)"
  proof
    assume inv: "timeout_consistent s"
    let ?s1 = "s\<lparr>manual_mode := True, last_touch_time := now\<rparr>"
    have s1: "timeout_consistent ?s1"
      using inv by (simp add: timeout_consistent_def)
    have a: "timeout_consistent (touch_settings_screen ?s1 x y)"
      using s1 by (rule touch_settings_consistent)
    have b: "timeout_consistent (touch_main_screen ?s1 x y)"
      using s1 touch_main_frame [of ?s1 x y] by (simp add: timeout_consistent_def)
    show "timeout_consistent (handle_touch s now x y)"
      using s1 a b unfolding handle_touch_def Let_def
      by (simp add: timeout_consistent_def)
  qed
qed

theorem handle_touch_consistent_witness:
  "timeout_consistent ((display_init 0)\<lparr>current_screen := 2\<rparr>)
   \<and> timeout_consistent (handle_touch ((display_init 0)\<lparr>current_screen := 2\<rparr>) 1000 50 70)
   \<and> motion_timeout_seconds (handle_touch ((display_init 0)\<lparr>current_screen := 2\<rparr>) 1000 50 70) = 20"
proof -
  have h: "timeout_consistent ((display_init 0)\<lparr>current_screen := 2\<rparr>)"
    by (simp add: timeout_consistent_def display_init_def)
  have v: "motion_timeout_seconds
      (handle_touch ((display_init 0)\<lparr>current_screen := 2\<rparr>) 1000 50 70) = 20"
    by (simp add: handle_touch_def touch_settings_screen_def display_init_def Let_def)
  from handle_touch_consistent [of 0 "(display_init 0)\<lparr>current_screen := 2\<rparr>" 1000 50 70] h v
  show ?thesis by simp
qed

text \<open>
  Claim C7.  On the settings screen (screen 2 of the 240 pixel high display), with the
  seconds value between 5 and 300 before the touch, it is between 5 and 300 after it.
  The -10 s and -5 s buttons give max 5 (old - 10) and max 5 (old - 5), the +10 s and
  +5 s buttons give min 300 (old + 10) and min 300 (old + 5), the four preset buttons
  give 15, 30, 60 and 120, and each of these buttons sets screen_needs_redraw.
\<close>

theorem settings_timeout_clamped:
  assumes "current_screen s = 2" "height s = 240"
    and "5 \<le> motion_timeout_seconds s" "motion_timeout_seconds s \<le> 300"
  shows "5 \<le> motion_timeout_seconds (handle_touch s now x y)
     \<and> motion_timeout_seconds (handle_touch s now x y) \<le> 300
     \<and> (50 \<le> y \<and> y \<le> 90 \<and> 20 \<le> x \<and> x \<le> 80 \<longrightarrow>
          motion_timeout_seconds (handle_touch s now x y) = max 5 (motion_timeout_seconds s - 10)
          \<and> screen_needs_redraw (handle_touch s now x y))
     \<and> (50 \<le> y \<and> y \<le> 90 \<and> 240 \<le> x \<and> x \<le> 300 \<longrightarrow>
          motion_timeout_seconds (handle_touch s now x y) = min 300 (motion_timeout_seconds s + 10)
          \<and> screen_needs_redraw (handle_touch s now x y))
     \<and> (100 \<le> y \<and> y \<le> 130 \<and> 50 \<le> x \<and> x \<le> 100 \<longrightarrow>
          motion_timeout_seconds (handle_touch s now x y) = max 5 (motion_timeout_seconds s - 5)
          \<and> screen_needs_redraw (handle_touch s now x y))
     \<and> (100 \<le> y \<and> y \<le> 130 \<and> 220 \<le> x \<and> x \<le> 270 \<longrightarrow>
          motion_timeout_seconds (handle_touch s now x y) = min 300 (motion_timeout_seconds s + 5)
          \<and> screen_needs_redraw (handle_touch s now x y))
     \<and> (140 \<le> y \<and> y \<le> 165 \<and> 20 \<le> x \<and> x \<le> 80 \<longrightarrow>
          motion_timeout_seconds (handle_touch s now x y) = 15
          \<and> screen_needs_redraw (handle_touch s now x y))
     \<and> (140 \<le> y \<and> y \<le> 165 \<and> 90 \<le> x \<and> x \<le> 150 \<longrightarrow>
          motion_timeout_seconds (handle_touch s now x y) = 30
          \<and> screen_needs_redraw (handle_touch s now x y))
     \<and> (140 \<le> y \<and> y \<le> 165 \<and> 160 \<le> x \<and> x \<le> 220 \<longrightarrow>
          motion_timeout_seconds (handle_touch s now x y) = 60
          \<and> screen_needs_redraw (handle_touch s now x y))
     \<and> (140 \<le> y \<and> y \<le> 165 \<and> 230 \<le> x \<and> x \<le> 290 \<longrightarrow>
          motion_timeout_seconds (handle_touch s now x y) = 120
          \<and> screen_needs_redraw (handle_touch s now x y))"
proof (cases "y < height s - 40")
  case True
  show ?thesis
    unfolding handle_touch_settings [OF assms(1) True]
    using assms(3,4) True assms(2)
    by (simp add: touch_settings_screen_def Let_def presets_unfold
        del: enumerate_simps apply_preset.simps)
next
  case False
  then show ?thesis
    using assms by (simp add: handle_touch_def Let_def)
qed

theorem settings_timeout_clamped_witness:
  "motion_timeout_seconds (handle_touch ((display_init 0)\<lparr>current_screen := 2,
       motion_timeout_seconds := 10, motion_timeout := 10000,
       screen_needs_redraw := False\<rparr>) 1000 50 70) = 5
   \<and> screen_needs_redraw (handle_touch ((display_init 0)\<lparr>current_screen := 2,
       motion_timeout_seconds := 10, motion_timeout := 10000,
       screen_needs_redraw := False\<rparr>) 1000 50 70)
   \<and> motion_timeout_seconds (handle_touch ((display_init 0)\<lparr>current_screen := 2,
       motion_timeout_seconds := 295, motion_timeout := 295000,
       screen_needs_redraw := False\<rparr>) 1000 250 70) = 300"
  using
    settings_timeout_clamped [of "(display_init 0)\<lparr>current_screen := 2,
       motion_timeout_seconds := 10, motion_timeout := 10000,
       screen_needs_redraw := False\<rparr>" 1000 50 70]
    settings_timeout_clamped [of "(display_init 0)\<lparr>current_screen := 2,
       motion_timeout_seconds := 295, motion_timeout := 295000,
       screen_needs_redraw := False\<rparr>" 1000 250 70]
  by (simp add: display_init_def)

text \<open>
  Every hit region is live: a touch in the navigation bar selects the dashboard or the
  settings screen, and a touch in any other hit region of the 320 x 240 display sets
  screen_needs_redraw.
\<close>

lemma hit_region_acts:
  assumes "in_hit_region s x y" "height s = 240" "width s = 320"
  shows "(y \<ge> 200 \<longrightarrow> current_screen (handle_touch s now x y) = (if x < 160 then 0 else 2))
       \<and> (y < 200 \<longrightarrow> screen_needs_redraw (handle_touch s now x y))"
proof (cases "y \<ge> 200")
  case True
  then show ?thesis
    using assms by (simp add: handle_touch_def Let_def)
next
  case False
  let ?s1 = "s\<lparr>manual_mode := True, last_touch_time := now\<rparr>"
  from False assms consider
      (main) "current_screen s = 0" "list_ex (\<lambda>r. in_rect r x y) main_widgets"
    | (settings) "current_screen s = 2" "list_ex (\<lambda>r. in_rect r x y) settings_buttons"
    by (auto simp add: in_hit_region_def)
  then show ?thesis
  proof cases
    case main
    then have "current_screen (touch_main_screen ?s1 x y) = 1"
      by (auto simp add: main_widgets_def in_rect_def touch_main_screen_def)
    with main False assms show ?thesis
      by (simp add: handle_touch_def Let_def)
  next
    case settings
    then have "screen_needs_redraw (touch_settings_screen ?s1 x y)"
      by (auto simp add: settings_buttons_def in_rect_def touch_settings_screen_def
          Let_def presets_unfold simp del: enumerate_simps apply_preset.simps)
    with settings False assms show ?thesis
      by (simp add: handle_touch_settings)
  qed
qed

lemma touch_main_miss:
  assumes "\<not> list_ex (\<lambda>r. in_rect r x y) main_widgets"
  shows "current_screen (touch_main_screen s x y) = current_screen s
       \<and> screen_needs_redraw (touch_main_screen s x y) = screen_needs_redraw s"
proof -
  have rd: "screen_needs_redraw (touch_main_screen s x y) = screen_needs_redraw s"
    by (simp add: touch_main_screen_def)
  have cs: "current_screen (touch_main_screen s x y) = current_screen s"
  proof (cases "20 \<le> y \<and> y \<le> 100")
    case True
    with assms have "\<not> (10 \<le> x \<and> x \<le> 100)" "\<not> (110 \<le> x \<and> x \<le> 200)"
      "\<not> (210 \<le> x \<and> x \<le> 300)"
      by (simp_all add: main_widgets_def in_rect_def)
    with True show ?thesis
      by (auto simp add: touch_main_screen_def)
  next
    case upper: False
    show ?thesis
    proof (cases "110 \<le> y \<and> y \<le> 190")
      case True
      with assms have "\<not> (10 \<le> x \<and> x \<le> 100)" "\<not> (110 \<le> x \<and> x \<le> 300)"
        by (simp_all add: main_widgets_def in_rect_def)
      with True upper show ?thesis
        by (auto simp add: touch_main_screen_def)
    next
      case False
      with upper show ?thesis
        by (auto simp add: touch_main_screen_def)
    qed
  qed
  from cs rd show ?thesis by simp
qed

lemma touch_settings_miss:
  assumes "\<not> list_ex (\<lambda>r. in_rect r x y) settings_buttons"
  shows "screen_needs_redraw (touch_settings_screen s x y) = screen_needs_redraw s"
proof (cases "50 \<le> y \<and> y \<le> 90")
  case True
  with assms have "\<not> (20 \<le> x \<and> x \<le> 80)" "\<not> (240 \<le> x \<and> x \<le> 300)"
    by (simp_all add: settings_buttons_def in_rect_def)
  with True show ?thesis
    by (auto simp add: touch_settings_screen_def Let_def)
next
  case main: False
  show ?thesis
  proof (cases "100 \<le> y \<and> y \<le> 130")
    case True
    with assms have "\<not> (50 \<le> x \<and> x \<le> 100)" "\<not> (220 \<le> x \<and> x \<le> 270)"
      by (simp_all add: settings_buttons_def in_rect_def)
    with True main show ?thesis
      by (auto simp add: touch_settings_screen_def Let_def)
  next
    case fine: False
    show ?thesis
    proof (cases "140 \<le> y \<and> y \<le> 165")
      case True
      with assms have "\<not> (20 \<le> x \<and> x \<le> 80)" "\<not> (90 \<le> x \<and> x \<le> 150)"
        "\<not> (160 \<le> x \<and> x \<le> 220)" "\<not> (230 \<le> x \<and> x \<le> 290)"
        by (simp_all add: settings_buttons_def in_rect_def)
      with True main fine show ?thesis
        by (auto simp add: touch_settings_screen_def Let_def presets_unfold
            simp del: enumerate_simps apply_preset.simps)
    next
      case False
      with main fine show ?thesis
        by (auto simp add: touch_settings_screen_def Let_def)
    qed
  qed
qed

text \<open>
  Claim C8, as the code has it.  On every screen but the detail screen, a touch outside
  every hit region (not in the navigation bar, in no widget or button rectangle of the
  screen) leaves current_screen as it was and leaves screen_needs_redraw as it was.  On
  the detail screen every touch above the navigation bar, in whatever place, returns to
  the dashboard: current_screen becomes 0 and screen_needs_redraw is set.
\<close>

theorem no_hit_is_noop:
  "(\<not> in_hit_region s x y \<and> current_screen s \<noteq> 1 \<longrightarrow>
      current_screen (handle_touch s now x y) = current_screen s
      \<and> screen_needs_redraw (handle_touch s now x y) = screen_needs_redraw s)
   \<and> (current_screen s = 1 \<and> y < height s - 40 \<longrightarrow>
      current_screen (handle_touch s now x y) = 0
      \<and> screen_needs_redraw (handle_touch s now x y))"
proof (intro conjI impI)
  assume a: "\<not> in_hit_region s x y \<and> current_screen s \<noteq> 1"
  let ?s1 = "s\<lparr>manual_mode := True, last_touch_time := now\<rparr>"
  from a have nav: "y < height s - 40" and nd: "current_screen s \<noteq> 1"
    by (simp_all add: in_hit_region_def)
  consider (main) "current_screen s = 0" | (settings) "current_screen s = 2"
    | (other) "current_screen s \<noteq> 0" "current_screen s \<noteq> 2"
    by blast
  then have "current_screen (handle_touch s now x y) = current_screen s
      \<and> screen_needs_redraw (handle_touch s now x y) = screen_needs_redraw s"
  proof cases
    case main
    with a have "\<not> list_ex (\<lambda>r. in_rect r x y) main_widgets"
      by (simp add: in_hit_region_def)
    from touch_main_miss [OF this, of ?s1] main nav show ?thesis
      by (simp add: handle_touch_def Let_def)
  next
    case settings
    with a have "\<not> list_ex (\<lambda>r. in_rect r x y) settings_buttons"
      by (simp add: in_hit_region_def)
    from touch_settings_miss [OF this, of ?s1] settings nav show ?thesis
      by (simp add: handle_touch_settings touch_settings_frame)
  next
    case other
    with nav nd show ?thesis
      by (simp add: handle_touch_def Let_def)
  qed
  then show "current_screen (handle_touch s now x y) = current_screen s"
    and "screen_needs_redraw (handle_touch s now x y) = screen_needs_redraw s"
    by simp_all
next
  assume d: "current_screen s = 1 \<and> y < height s - 40"
  then show "current_screen (handle_touch s now x y) = 0"
    and "screen_needs_redraw (handle_touch s now x y)"
    by (simp_all add: handle_touch_def Let_def)
qed

theorem no_hit_is_noop_witness:
  "\<not> in_hit_region ((display_init 0)\<lparr>screen_needs_redraw := False\<rparr>) 105 50
   \<and> current_screen (handle_touch ((display_init 0)\<lparr>screen_needs_redraw := False\<rparr>) 1000 105 50) = 0
   \<and> \<not> screen_needs_redraw
         (handle_touch ((display_init 0)\<lparr>screen_needs_redraw := False\<rparr>) 1000 105 50)
   \<and> current_screen (handle_touch ((display_init 0)\<lparr>current_screen := 1\<rparr>) 1000 160 120) = 0
   \<and> screen_needs_redraw (handle_touch ((display_init 0)\<lparr>current_screen := 1\<rparr>) 1000 160 120)"
proof -
  have h: "\<not> in_hit_region ((display_init 0)\<lparr>screen_needs_redraw := False\<rparr>) 105 50"
    by (simp add: in_hit_region_def display_init_def main_widgets_def in_rect_def)
  show ?thesis
    using h no_hit_is_noop [of "(display_init 0)\<lparr>screen_needs_redraw := False\<rparr>" 105 50 1000]
      no_hit_is_noop [of "(display_init 0)\<lparr>current_screen := 1\<rparr>" 160 120 1000]
    by (simp add: display_init_def)
qed

text \<open>
  On the detail screen the claim as stated fails.  With the detail screen shown and the
  redraw flag clear, the point (5, 105) is above the navigation bar and in no widget or
  button rectangle, yet the touch changes current_screen from 1 to 0 and sets
  screen_needs_redraw.
\<close>

theorem no_hit_detail_counterexample:
  "\<not> in_hit_region ((display_init 0)\<lparr>current_screen := 1, screen_needs_redraw := False\<rparr>) 5 105
   \<and> \<not> list_ex (\<lambda>r. in_rect r 5 105) (main_widgets @ settings_buttons)
   \<and> current_screen ((display_init 0)\<lparr>current_screen := 1, screen_needs_redraw := False\<rparr>) = 1
   \<and> current_screen (handle_touch
        ((display_init 0)\<lparr>current_screen := 1, screen_needs_redraw := False\<rparr>) 1000 5 105) = 0
   \<and> \<not> screen_needs_redraw ((display_init 0)\<lparr>current_screen := 1, screen_needs_redraw := False\<rparr>)
   \<and> screen_needs_redraw (handle_touch
        ((display_init 0)\<lparr>current_screen := 1, screen_needs_redraw := False\<rparr>) 1000 5 105)"
  by (simp add: in_hit_region_def handle_touch_def display_init_def main_widgets_def
      settings_buttons_def in_rect_def Let_def)

subsection \<open>Manual-mode timeout\<close>

lemma checks_before_timeout:
  assumes "\<forall>t \<in> set ts. ticks_diff t (last_touch_time s) \<le> 60000"
  shows "auto_mode_checks s ts = replicate (length ts) s"
  using assms by (induction ts) (simp_all add: check_auto_mode_timeout_def Let_def)

lemma checks_in_auto_mode:
  assumes "\<not> manual_mode s"
  shows "auto_mode_checks s ts = replicate (length ts) s"
  using assms by (induction ts) (simp_all add: check_auto_mode_timeout_def Let_def)

lemma auto_mode_checks_append:
  "auto_mode_checks s (ts @ t # us) =
     auto_mode_checks s ts @ auto_mode_checks (last (s # auto_mode_checks s ts)) (t # us)"
  by (induction ts arbitrary: s) (simp_all add: Let_def)

text \<open>
  Claim C3.  Start in manual mode and let the checks run with no touch in between.  As
  long as the checks see at most 60000 ms since last_touch_time they leave the state
  alone; the first check that sees more than 60000 ms clears manual_mode and changes
  nothing else; every later check, whatever its clock value, leaves that state alone, so
  manual_mode is True up to the firing check and False from it on.  A new touch sets
  manual_mode again.
\<close>

theorem manual_mode_times_out_once:
  assumes "manual_mode s"
    and "\<forall>t \<in> set before. ticks_diff t (last_touch_time s) \<le> 60000"
    and "ticks_diff t1 (last_touch_time s) > 60000"
  shows "auto_mode_checks s (before @ t1 # after) =
           replicate (length before) s
           @ replicate (Suc (length after)) (s\<lparr>manual_mode := False\<rparr>)
       \<and> map manual_mode (auto_mode_checks s (before @ t1 # after)) =
           replicate (length before) True @ replicate (Suc (length after)) False
       \<and> manual_mode (handle_touch (s\<lparr>manual_mode := False\<rparr>) now x y)"
proof -
  let ?off = "s\<lparr>manual_mode := False\<rparr>"
  have pre: "auto_mode_checks s before = replicate (length before) s"
    using assms(2) by (rule checks_before_timeout)
  have lst: "last (s # replicate (length before) s) = s"
    by (cases before) simp_all
  have fire: "check_auto_mode_timeout s t1 = ?off"
    using assms(1,3) by (simp add: check_auto_mode_timeout_def)
  have post: "auto_mode_checks ?off after = replicate (length after) ?off"
    by (rule checks_in_auto_mode) simp
  have run: "auto_mode_checks s (before @ t1 # after) =
      replicate (length before) s @ replicate (Suc (length after)) ?off"
    by (simp add: auto_mode_checks_append pre lst fire post Let_def)
  have touch: "manual_mode (handle_touch ?off now x y)"
    by (simp add: handle_touch_enters_manual)
  show ?thesis
    using run touch assms(1) by simp
qed

theorem manual_mode_times_out_once_witness:
  "map manual_mode (auto_mode_checks (handle_touch (display_init 0) 1000 105 50)
       [1200, 30000, 61000, 61001, 61200, 90000])
     = [True, True, True, False, False, False]"
proof -
  let ?s = "handle_touch (display_init 0) 1000 105 50"
  have m: "manual_mode ?s" and t: "last_touch_time ?s = 1000"
    by (simp_all add: handle_touch_enters_manual)
  have b: "\<forall>t \<in> set [1200, 30000, 61000]. ticks_diff t (last_touch_time ?s) \<le> 60000"
    unfolding t by (simp add: ticks_diff_def)
  have f: "ticks_diff 61001 (last_touch_time ?s) > 60000"
    unfolding t by (simp add: ticks_diff_def)
  show ?thesis
    using m manual_mode_times_out_once [OF m b f, of "[61200, 90000]"]
    by (simp del: auto_mode_checks.simps)
qed

subsection \<open>Motion latch\<close>














subsection \<open>Plant health\<close>

lemma compute_health_score: "compute_health tp lv hm = health_score tp lv hm"
  by (simp add: compute_health_def health_score_def Let_def)

lemma health_score_range: "0 \<le> health_score tp lv hm \<and> health_score tp lv hm \<le> 100"
  by (simp add: health_score_def)

text \<open>
  Claim C5.  Whenever the DHT11 delivers a reading, \<^const>\<open>update_sensor_data\<close> returns
  and the stored plant_health is the score of the stored temperature, the light value
  just read and the stored humidity: 100, minus 15 when the temperature is below 18 or
  above 28, minus 20 when the light value is below 300, minus 15 when the humidity is
  below 40 or above 80, clamped to 0..100.  Temperature 22, light 750, humidity 65 score
  100, and temperature 30 with the same light and humidity scores 85, both as values
  of the rule and as results of an update of the freshly constructed display.
\<close>

theorem plant_health_rule:
  "(\<exists>cues s'. update_sensor_data s (lv, lr) (Some (t, h)) now m = Inr (cues, s')
       \<and> plant_health (sensor_data s')
           = health_score (temperature (sensor_data s')) lv (humidity (sensor_data s'))
       \<and> light (sensor_data s') = lv
       \<and> 0 \<le> plant_health (sensor_data s') \<and> plant_health (sensor_data s') \<le> 100)
   \<and> health_score 22 750 65 = 100
   \<and> health_score 30 750 65 = 85
   \<and> (\<exists>cues s'. update_sensor_data (display_init 0) (750, 49151) (Some (22, 65)) 5200 0
          = Inr (cues, s')
        \<and> temperature (sensor_data s') = 22 \<and> humidity (sensor_data s') = 65
        \<and> plant_health (sensor_data s') = 100)
   \<and> (\<exists>cues s'. update_sensor_data (display_init 0) (750, 49151) (Some (30, 65)) 5200 0
          = Inr (cues, s')
        \<and> temperature (sensor_data s') = 30 \<and> humidity (sensor_data s') = 65
        \<and> plant_health (sensor_data s') = 85)"
proof (intro conjI)
  show "\<exists>cues s'. update_sensor_data s (lv, lr) (Some (t, h)) now m = Inr (cues, s')
       \<and> plant_health (sensor_data s')
           = health_score (temperature (sensor_data s')) lv (humidity (sensor_data s'))
       \<and> light (sensor_data s') = lv
       \<and> 0 \<le> plant_health (sensor_data s') \<and> plant_health (sensor_data s') \<le> 100"
    by (cases "read_motion_sensor s now m")
      (simp add: update_sensor_data_def Let_def compute_health_score health_score_range
        split del: if_split)
  show "health_score 22 750 65 = 100" "health_score 30 750 65 = 85"
    by (simp_all add: health_score_def)
  have m: "read_motion_sensor (display_init 0) 5200 0
      = (False, [], (display_init 0)\<lparr>reward_played := False, last_motion_check := 5200\<rparr>)"
    by (simp add: read_motion_sensor_def display_init_def ticks_diff_def Let_def)
  show "\<exists>cues s'. update_sensor_data (display_init 0) (750, 49151) (Some (22, 65)) 5200 0
          = Inr (cues, s')
        \<and> temperature (sensor_data s') = 22 \<and> humidity (sensor_data s') = 65
        \<and> plant_health (sensor_data s') = 100"
    unfolding update_sensor_data_def m
    by (simp add: Let_def compute_health_score health_score_def
        store_temperature_def store_humidity_def display_init_def)
  show "\<exists>cues s'. update_sensor_data (display_init 0) (750, 49151) (Some (30, 65)) 5200 0
          = Inr (cues, s')
        \<and> temperature (sensor_data s') = 30 \<and> humidity (sensor_data s') = 65
        \<and> plant_health (sensor_data s') = 85"
    unfolding update_sensor_data_def m
    by (simp add: Let_def compute_health_score health_score_def
        store_temperature_def store_humidity_def display_init_def)
qed

subsection \<open>Touch calibration\<close>

lemma int_of_quotient_pos:
  assumes "0 < b"
  shows "int_of_quotient a b = (if 0 \<le> a then a div b else - ((- a) div b))"
  using assms by (auto simp add: int_of_quotient_def sgn_if)

lemma int_of_quotient_mono:
  assumes "0 < b" "a \<le> a'"
  shows "int_of_quotient a b \<le> int_of_quotient a' b"
proof -
  consider (pos) "0 \<le> a" | (neg) "a' < 0" | (mixed) "a < 0" "0 \<le> a'"
    using assms(2) by linarith
  then show ?thesis
  proof cases
    case pos
    with assms have "a div b \<le> a' div b" "0 \<le> a'"
      by (simp_all add: zdiv_mono1)
    with pos assms(1) show ?thesis
      by (simp add: int_of_quotient_pos)
  next
    case neg
    with assms have "(- a') div b \<le> (- a) div b" "a < 0"
      by (simp_all add: zdiv_mono1)
    with neg assms(1) show ?thesis
      by (simp add: int_of_quotient_pos)
  next
    case mixed
    with assms(1) have "0 \<le> (- a) div b" "0 \<le> a' div b"
      by (simp_all add: pos_imp_zdiv_nonneg_iff)
    with mixed assms(1) show ?thesis
      by (simp add: int_of_quotient_pos)
  qed
qed

lemma scale_mono:
  assumes "cal_min < cal_max" "0 \<le> extent" "raw \<le> raw'"
  shows "scale raw cal_min cal_max extent \<le> scale raw' cal_min cal_max extent"
  unfolding scale_def
  using assms by (intro int_of_quotient_mono) (simp_all add: mult_right_mono)

lemma scale_ends:
  assumes "cal_min < cal_max" "0 \<le> extent"
  shows "scale cal_min cal_min cal_max extent = 0"
    and "scale cal_max cal_min cal_max extent = extent"
proof -
  show "scale cal_min cal_min cal_max extent = 0"
    by (simp add: scale_def int_of_quotient_def)
  have "0 \<le> (cal_max - cal_min) * extent"
    using assms by simp
  then show "scale cal_max cal_min cal_max extent = extent"
    using assms(1) by (simp add: scale_def int_of_quotient_pos)
qed

lemma to_screen_value:
  assumes "cal_x_min tc < cal_x_max tc" "cal_y_min tc < cal_y_max tc"
  shows "to_screen tc xa ya =
     Inr (max 0 (min 319 (scale xa (cal_x_min tc) (cal_x_max tc) 320)),
          max 0 (min 239 (scale ya (cal_y_min tc) (cal_y_max tc) 240)))"
  using assms by (simp add: to_screen_def Let_def)

text \<open>
  Claim C4.  With calibration bounds cal_min < cal_max on both axes (200 and 3800 as
  constructed), the calibration step of \<^const>\<open>get_touch\<close> returns a point for every averaged
  raw pair; a larger raw x never gives a smaller screen x, and likewise for y; every
  returned x lies in 0..319 and every y in 0..239; the raw pair (cal_x_min, cal_y_min)
  maps to (0, 0) and (cal_x_max, cal_y_max) to (319, 239).
\<close>

theorem calibration_monotone_clamped:
  assumes "cal_x_min tc < cal_x_max tc" "cal_y_min tc < cal_y_max tc"
  shows "(\<exists>x y x' y'. to_screen tc xa ya = Inr (x, y) \<and> to_screen tc xb yb = Inr (x', y')
            \<and> (xa \<le> xb \<longrightarrow> x \<le> x') \<and> (ya \<le> yb \<longrightarrow> y \<le> y')
            \<and> 0 \<le> x \<and> x \<le> 319 \<and> 0 \<le> y \<and> y \<le> 239)
       \<and> to_screen tc (cal_x_min tc) (cal_y_min tc) = Inr (0, 0)
       \<and> to_screen tc (cal_x_max tc) (cal_y_max tc) = Inr (319, 239)"
proof -
  let ?fx = "\<lambda>v. max 0 (min 319 (scale v (cal_x_min tc) (cal_x_max tc) 320))"
  let ?fy = "\<lambda>v. max 0 (min 239 (scale v (cal_y_min tc) (cal_y_max tc) 240))"
  have mx: "?fx xa \<le> ?fx xb" if "xa \<le> xb"
    using scale_mono [OF assms(1) _ that, of 320] by simp
  have my: "?fy ya \<le> ?fy yb" if "ya \<le> yb"
    using scale_mono [OF assms(2) _ that, of 240] by simp
  have rng: "0 \<le> ?fx xa" "?fx xa \<le> 319" "0 \<le> ?fy ya" "?fy ya \<le> 239"
    by simp_all
  have lo: "to_screen tc (cal_x_min tc) (cal_y_min tc) = Inr (0, 0)"
    by (simp add: to_screen_value [OF assms] scale_ends [OF assms(1)] scale_ends [OF assms(2)])
  have hi: "to_screen tc (cal_x_max tc) (cal_y_max tc) = Inr (319, 239)"
    by (simp add: to_screen_value [OF assms] scale_ends [OF assms(1)] scale_ends [OF assms(2)])
  from mx my rng lo hi show ?thesis
    unfolding to_screen_value [OF assms] by blast
qed

theorem calibration_monotone_clamped_witness:
  "to_screen touch_controller_init 200 200 = Inr (0, 0)
   \<and> to_screen touch_controller_init 3800 3800 = Inr (319, 239)
   \<and> to_screen touch_controller_init 2000 2000 = Inr (160, 120)
   \<and> to_screen touch_controller_init 150 3900 = Inr (0, 239)"
proof -
  have h: "cal_x_min touch_controller_init < cal_x_max touch_controller_init"
    "cal_y_min touch_controller_init < cal_y_max touch_controller_init"
    by (simp_all add: touch_controller_init_def)
  have v: "to_screen touch_controller_init 2000 2000 = Inr (160, 120)"
    "to_screen touch_controller_init 150 3900 = Inr (0, 239)"
    by (simp_all add: to_screen_def touch_controller_init_def scale_def int_of_quotient_def Let_def)
  from calibration_monotone_clamped [OF h, of 2000 2000 2000 2000] v show ?thesis
    by (simp add: touch_controller_init_def)
qed

subsection \<open>Touch sampling\<close>

text \<open>One pass of the loop body, as a function of the pair it reads.\<close>

lemma sample_loop_step:
  "sample_loop (Suc n) b (xs, ys, v) =
     sample_loop n
       (b\<lparr>spi_reads := spi_reads b + 2,
          traffic := traffic b @ transaction TOUCH_CMD_X @ transaction TOUCH_CMD_Y\<rparr>)
       (let p = (reply_value (spi_replies b (spi_reads b)),
                 reply_value (spi_replies b (spi_reads b + 1)))
        in if plausible p then (xs + fst p, ys + snd p, v + 1) else (xs, ys, v))"
  by (auto simp add: read_touch_raw_def transaction_def plausible_def Let_def)


lemma upt_Suc_shift: "map f [0..<Suc n] = f 0 # map (\<lambda>k. f (Suc k)) [0..<n]"
proof -
  have "[0..<Suc n] = 0 # map Suc [0..<n]"
    by (simp add: upt_conv_Cons map_Suc_upt del: upt_Suc)
  then show ?thesis
    by (simp add: comp_def del: upt_Suc)
qed

lemma sample_loop_sum:
  "sample_loop n b (xs, ys, v) =
     (let survivors = filter plausible
            (map (\<lambda>k. (reply_value (spi_replies b (spi_reads b + 2 * k)),
                       reply_value (spi_replies b (spi_reads b + 2 * k + 1)))) [0..<n])
      in ((xs + sum_list (map fst survivors), ys + sum_list (map snd survivors),
           v + int (length survivors)),
          b\<lparr>spi_reads := spi_reads b + 2 * n,
            traffic := traffic b
              @ concat (replicate n (transaction TOUCH_CMD_X @ transaction TOUCH_CMD_Y))\<rparr>))"
proof (induction n arbitrary: b xs ys v)
  case 0
  show ?case by simp
next
  case (Suc n)
  let ?b1 = "b\<lparr>spi_reads := spi_reads b + 2,
      traffic := traffic b @ transaction TOUCH_CMD_X @ transaction TOUCH_CMD_Y\<rparr>"
  let ?p = "(reply_value (spi_replies b (spi_reads b)),
      reply_value (spi_replies b (spi_reads b + 1)))"
  show ?case
  proof (cases "plausible ?p")
    case True
    then have step: "sample_loop (Suc n) b (xs, ys, v) =
        sample_loop n ?b1 (xs + fst ?p, ys + snd ?p, v + 1)"
      unfolding sample_loop_step by (simp add: Let_def del: sample_loop.simps)
    show ?thesis
      unfolding step Suc.IH [of ?b1] upt_Suc_shift
      using True by (simp add: Let_def del: upt_Suc)
  next
    case False
    then have step: "sample_loop (Suc n) b (xs, ys, v) = sample_loop n ?b1 (xs, ys, v)"
      unfolding sample_loop_step by (simp add: Let_def del: sample_loop.simps)
    show ?thesis
      unfolding step Suc.IH [of ?b1] upt_Suc_shift
      using False by (simp add: Let_def del: upt_Suc)
  qed
qed

lemma sample_loop_3:
  "sample_loop 3 b (0, 0, 0) =
     (let survivors = filter plausible (raw_pairs b) in
      ((sum_list (map fst survivors), sum_list (map snd survivors), int (length survivors)),
       after_sampling b))"
proof -
  have idx: "[0..<3] = [0, 1, 2]"
    by (simp add: upt_rec)
  show ?thesis
    unfolding sample_loop_sum idx
    by (simp add: raw_pairs_def after_sampling_def Let_def)
qed

text \<open>
  Claim C6.  \<^const>\<open>get_touch\<close> computes what the sampling rule says: with the interrupt
  line at 1 it returns None and leaves the bus as it was (no read, no write, no
  chip-select change); otherwise it makes six transactions, x then y three times, keeps
  the pairs with both values strictly between 100 and 4000, returns None when none is
  kept, and otherwise calibrates the per-axis sums divided, with integer division, by
  the number of kept pairs.
\<close>

theorem get_touch_sampling:
  "get_touch tc b = get_touch_spec tc b
   \<and> get_touch tc (b\<lparr>irq_level := 1\<rparr>) = Inr (None, b\<lparr>irq_level := 1\<rparr>)"
proof
  show "get_touch tc (b\<lparr>irq_level := 1\<rparr>) = Inr (None, b\<lparr>irq_level := 1\<rparr>)"
    by (simp add: get_touch_def)
  show "get_touch tc b = get_touch_spec tc b"
  proof (cases "irq_level b = 1")
    case True
    then show ?thesis
      by (simp add: get_touch_def get_touch_spec_def)
  next
    case False
    define survivors where "survivors = filter plausible (raw_pairs b)"
    have loop: "sample_loop 3 b (0, 0, 0) =
        ((sum_list (map fst survivors), sum_list (map snd survivors), int (length survivors)),
         after_sampling b)"
      by (simp add: sample_loop_3 survivors_def Let_def)
    show ?thesis
      using False unfolding get_touch_def get_touch_spec_def loop
      by (simp add: survivors_def [symmetric] Let_def)
  qed
qed

subsection \<open>Rectangle fill\<close>

text \<open>
  For a rectangle whose origin is on the screen and whose width and height are at least
  1, the window sent lies on the screen and is cut at the right and bottom edges.
\<close>

lemma fill_rect_on_screen:
  assumes "0 \<le> x" "x < width s" "0 \<le> y" "y < height s" "1 \<le> w" "1 \<le> h"
  shows "\<exists>x1 y1 n. fill_rect s x y w h color =
           set_window x y x1 y1 @ [CsLow, DcHigh] @ replicate n (SpiData (pack_H color)) @ [CsHigh]
         \<and> x \<le> x1 \<and> x1 < width s \<and> y \<le> y1 \<and> y1 < height s
         \<and> x1 = min (x + w) (width s) - 1 \<and> y1 = min (y + h) (height s) - 1
         \<and> int n = (x1 - x + 1) * (y1 - y + 1)"
proof -
  let ?w = "if x + w > width s then width s - x else w"
  let ?h = "if y + h > height s then height s - y else h"
  have w: "1 \<le> ?w" "x + ?w - 1 = min (x + w) (width s) - 1"
    using assms by auto
  have h: "1 \<le> ?h" "y + ?h - 1 = min (y + h) (height s) - 1"
    using assms by auto
  have n: "int (nat (?w * ?h)) = ?w * ?h"
    using w(1) h(1) by simp
  have f: "fill_rect s x y w h color =
      set_window x y (x + ?w - 1) (y + ?h - 1)
      @ [CsLow, DcHigh] @ replicate (nat (?w * ?h)) (SpiData (pack_H color)) @ [CsHigh]"
    by (simp add: fill_rect_def Let_def)
  show ?thesis
    apply (rule exI [of _ "x + ?w - 1"])
    apply (rule exI [of _ "y + ?h - 1"])
    apply (rule exI [of _ "nat (?w * ?h)"])
    using f w h n assms by auto
qed

text \<open>
  Claim C1, at inputs where it fails.  \<^const>\<open>fill_rect\<close> clips only a rectangle that runs
  over the right or the bottom edge.  On the 320 x 240 display, a rectangle that starts
  at column 330 gets the width 320 - 330 = -10, and the column range 330..319 is sent,
  bytes 01 4A 01 3F, with no pixel; a rectangle that starts at column -5 is sent with the
  column range -5..4, which goes out as FF FB 00 04, followed by 100 pixels.  The
  one-pixel primitive \<^const>\<open>pixel\<close> sends nothing at either origin.
\<close>

theorem fill_rect_unclipped_origin:
  "fill_rect (display_init 0) 330 10 10 10 0xF800 = set_window 330 10 319 19 @ [CsLow, DcHigh, CsHigh]
   \<and> set_window 330 10 319 19 =
       [WriteCmdData 0x2A [1, 74, 1, 63], WriteCmdData 0x2B [0, 10, 0, 19], WriteCmd 0x2C]
   \<and> width (display_init 0) = 320
   \<and> fill_rect (display_init 0) (- 5) 0 10 10 0xF800 =
       set_window (- 5) 0 4 9 @ [CsLow, DcHigh] @ replicate 100 (SpiData [248, 0]) @ [CsHigh]
   \<and> set_window (- 5) 0 4 9 =
       [WriteCmdData 0x2A [255, 251, 0, 4], WriteCmdData 0x2B [0, 0, 0, 9], WriteCmd 0x2C]
   \<and> pixel (display_init 0) 330 10 0xF800 = []
   \<and> pixel (display_init 0) (- 5) 0 0xF800 = []"
  by (simp add: fill_rect_def set_window_def pack_H_def pixel_def display_init_def Let_def
      ILI9341_CASET_def ILI9341_PASET_def ILI9341_RAMWR_def)

end
